theory Spec2Isabelle
  imports Complex_Main "HOL-Library.AList"
begin

section \<open>Python values used by the two scripts\<close>

text \<open>
  The scripts are \<^verbatim>\<open>esom_tracer.py\<close> (class file for ESOM points) and
  \<^verbatim>\<open>phylosift_bins.py\<close> (taxonomy records per bin). Strings are byte strings,
  a text file handle is the list of the lines it yields, a \<^verbatim>\<open>dict\<close> is an
  association list in insertion order (\<open>AList.update\<close> overwrites in place or appends, as
  a Python dict does), and every exception the code can raise is a value of \<open>py_error\<close>.
\<close>

datatype py_error =
    IndexError
  | ValueError
  | KeyError
  | ZeroDivisionError
  | SystemExit nat

abbreviation TAB :: char where "TAB \<equiv> CHR 0x09"
abbreviation NL :: char where "NL \<equiv> CHR 0x0A"

text \<open>\<^verbatim>\<open>str.strip()\<close>: removes leading and trailing ASCII whitespace.\<close>

definition is_space :: "char \<Rightarrow> bool" where
  "is_space c = (c \<in> {CHR '' '', CHR 0x09, CHR 0x0A, CHR 0x0B, CHR 0x0C, CHR 0x0D})"

definition strip :: "string \<Rightarrow> string" where
  "strip s = rev (dropWhile is_space (rev (dropWhile is_space s)))"

text \<open>\<^verbatim>\<open>str.split(sep)\<close> with a one-character separator: never the empty list.\<close>

fun split_on :: "char \<Rightarrow> string \<Rightarrow> string list" where
  "split_on sep [] = [[]]"
| "split_on sep (c # cs) =
     (if c = sep then [] # split_on sep cs
      else (case split_on sep cs of
              [] \<Rightarrow> [[c]]
            | w # ws \<Rightarrow> (c # w) # ws))"

text \<open>\<^verbatim>\<open>str.lower()\<close> on ASCII letters.\<close>

definition lower_char :: "char \<Rightarrow> char" where
  "lower_char c =
     (if (65::nat) \<le> of_char c \<and> of_char c \<le> (90::nat)
      then char_of (of_char c + (32::nat)) else c)"

definition lower :: "string \<Rightarrow> string" where
  "lower s = map lower_char s"

text \<open>
  \<^verbatim>\<open>int(s)\<close> on a string: surrounding whitespace is dropped, one sign is allowed, and
  at least one decimal digit must follow; anything else raises \<^verbatim>\<open>ValueError\<close>
  (\<open>None\<close> here).
\<close>

definition digit_val :: "char \<Rightarrow> nat option" where
  "digit_val c =
     (if (48::nat) \<le> of_char c \<and> of_char c \<le> (57::nat)
      then Some (of_char c - 48) else None)"

fun digits_val :: "nat \<Rightarrow> string \<Rightarrow> nat option" where
  "digits_val acc [] = Some acc"
| "digits_val acc (c # cs) =
     (case digit_val c of
        None \<Rightarrow> None
      | Some d \<Rightarrow> digits_val (10 * acc + d) cs)"

definition py_int :: "string \<Rightarrow> int option" where
  "py_int s =
     (case strip s of
        [] \<Rightarrow> None
      | c # cs \<Rightarrow>
          if c = CHR ''-'' then
            (if cs = [] then None else map_option (\<lambda>n. - int n) (digits_val 0 cs))
          else if c = CHR ''+'' then
            (if cs = [] then None else map_option int (digits_val 0 cs))
          else map_option int (digits_val 0 (c # cs)))"

text \<open>\<^verbatim>\<open>str(n)\<close> for the integers written to the class file.\<close>

definition digit_char :: "nat \<Rightarrow> char" where
  "digit_char d = char_of (48 + d)"

fun str_nat :: "nat \<Rightarrow> string" where
  "str_nat n = (if n < 10 then [digit_char n] else str_nat (n div 10) @ [digit_char (n mod 10)])"

declare str_nat.simps [simp del]

definition str_int :: "int \<Rightarrow> string" where
  "str_int i = (if i < 0 then CHR ''-'' # str_nat (nat (- i)) else str_nat (nat i))"

section \<open>esom\_tracer: the names table\<close>

text \<open>
  \<^verbatim>\<open>names_dict\<close> drops the header line and stores, for every further line,
  \<^verbatim>\<open>temp_dict[columns[2]][columns[1]] = columns[0]\<close>: contig, then sub-sequence, then
  the point identifier as the string read. \<^verbatim>\<open>columns[2]\<close> raises
  \<^verbatim>\<open>IndexError\<close> on a line with fewer than three columns, and nothing catches it.
\<close>

type_synonym sub_dict = "(string \<times> string) list"
type_synonym names = "(string \<times> sub_dict) list"

definition columns_of :: "string \<Rightarrow> string list" where
  "columns_of line = split_on TAB (strip line)"

definition names_set :: "names \<Rightarrow> string \<Rightarrow> string \<Rightarrow> string \<Rightarrow> names" where
  "names_set d contig sub point =
     AList.update contig
       (AList.update sub point (case map_of d contig of None \<Rightarrow> [] | Some subs \<Rightarrow> subs)) d"

fun names_loop :: "names \<Rightarrow> string list \<Rightarrow> py_error + names" where
  "names_loop d [] = Inr d"
| "names_loop d (line # rest) =
     (let columns = columns_of line in
      if length columns < 3 then Inl IndexError
      else names_loop (names_set d (columns ! 2) (columns ! 1) (columns ! 0)) rest)"

definition names_dict :: "string list \<Rightarrow> py_error + names" where
  "names_dict names_file = names_loop [] (drop 1 names_file)"

section \<open>esom\_tracer: the coverage filter\<close>

text \<open>
  The alignment file and the FASTA file are used through four \<^verbatim>\<open>pysam\<close> calls
  only: the reference names of the alignment, the number of reads mapped to a reference,
  the pileup columns of a reference (one per position with an aligned read) and the length
  of a reference, which raises \<^verbatim>\<open>KeyError\<close> for a name the FASTA file lacks.
  Python floats are taken as exact rationals; \<^verbatim>\<open>x / 0.0\<close> raises.
\<close>

record bam_file =
  bam_references :: "string list"
  bam_count :: "string \<Rightarrow> nat"
  bam_pileup :: "string \<Rightarrow> nat list"

type_synonym fasta_file = "string \<rightharpoonup> nat"

text \<open>\<^verbatim>\<open>references[key] = ''\<close>: the dict is used as a set of keys.\<close>

definition dict_add :: "string list \<Rightarrow> string \<Rightarrow> string list" where
  "dict_add refs key = (if key \<in> set refs then refs else refs @ [key])"

text \<open>\<^verbatim>\<open>-c/--coverage\<close> has \<^verbatim>\<open>type=int, default=50\<close>.\<close>

definition coverage_arg :: "int option \<Rightarrow> int" where
  "coverage_arg c = (case c of None \<Rightarrow> 50 | Some v \<Rightarrow> v)"

fun reference_loop ::
  "bam_file \<Rightarrow> fasta_file \<Rightarrow> int \<Rightarrow> string list \<Rightarrow> string list \<Rightarrow> py_error + string list"
where
  "reference_loop b f cov refs [] = Inr refs"
| "reference_loop b f cov refs (reference # rest) =
     (let read_count = bam_count b reference in
      if read_count \<noteq> 0 then
        (let bases = length (bam_pileup b reference) in
         case f reference of
           None \<Rightarrow> Inl KeyError
         | Some referenceLength \<Rightarrow>
             if referenceLength = 0 then Inl ZeroDivisionError
             else
               (let baseCoverage = (of_nat bases :: rat) / of_nat referenceLength;
                    coverageThreshold = (of_int cov :: rat) / 100
                in reference_loop b f cov
                     (if baseCoverage \<ge> coverageThreshold then dict_add refs reference else refs)
                     rest))
      else reference_loop b f cov refs rest)"

definition coverage_filter :: "bam_file \<Rightarrow> fasta_file \<Rightarrow> int option \<Rightarrow> py_error + string list" where
  "coverage_filter b f c = reference_loop b f (coverage_arg c) [] (bam_references b)"

section \<open>esom\_tracer: the rainbow palette\<close>

text \<open>
  \<^verbatim>\<open>colorsys.hsv_to_rgb\<close> of the standard library, on exact rationals;
  \<^verbatim>\<open>int(x)\<close> on a float truncates towards zero. The sector index is reduced modulo 6,
  so the last branch is the sector 5.
\<close>

definition py_trunc :: "rat \<Rightarrow> int" where
  "py_trunc x = (if x \<ge> 0 then \<lfloor>x\<rfloor> else \<lceil>x\<rceil>)"

definition hsv_to_rgb :: "rat \<Rightarrow> rat \<Rightarrow> rat \<Rightarrow> rat \<times> rat \<times> rat" where
  "hsv_to_rgb h s v =
     (if s = 0 then (v, v, v)
      else
        (let i = py_trunc (h * 6);
             f = h * 6 - of_int i;
             p = v * (1 - s);
             q = v * (1 - s * f);
             t = v * (1 - s * (1 - f));
             i = i mod 6
         in if i = 0 then (v, t, p)
            else if i = 1 then (q, v, p)
            else if i = 2 then (p, v, t)
            else if i = 3 then (p, q, v)
            else if i = 4 then (t, p, v)
            else (v, p, q)))"

definition rainbow_picker :: "nat \<Rightarrow> (rat \<times> rat \<times> rat) list" where
  "rainbow_picker scale =
     map (\<lambda>i. case hsv_to_rgb (of_nat i / of_nat scale) 1 1 of
                 (r, g, b) \<Rightarrow> (r * 255, g * 255, b * 255))
         [0..<scale]"

section \<open>esom\_tracer: colouring by taxon\<close>

text \<open>
  The state of the scan in \<^verbatim>\<open>color_taxa\<close>. \<^verbatim>\<open>references\<close> is the caller's
  dict, passed by reference and written to when no alignment file was given.
\<close>

type_synonym class_dict = "(int \<times> nat) list"

record tax_state =
  taxa :: "(string \<times> nat) list"
  classes :: class_dict
  taxa_number :: nat
  references :: "string list"

text \<open>\<^verbatim>\<open>for sub_name in names_dict[contig]: classes[int(point)] = value\<close>\<close>

fun set_classes :: "class_dict \<Rightarrow> sub_dict \<Rightarrow> nat \<Rightarrow> py_error + class_dict" where
  "set_classes cls [] v = Inr cls"
| "set_classes cls ((sub_name, point) # rest) v =
     (case py_int point of
        None \<Rightarrow> Inl ValueError
      | Some key \<Rightarrow> set_classes (AList.update key v cls) rest v)"

definition tax_row ::
  "bool \<Rightarrow> names \<Rightarrow> string \<Rightarrow> tax_state \<Rightarrow> string \<Rightarrow> py_error + tax_state"
where
  "tax_row has_bam nd tax_level st line =
     (let columns = columns_of line;
          st = (if \<not> has_bam
                then st\<lparr>references := dict_add (references st) (columns ! 0)\<rparr> else st)
      in case map_of nd (columns ! 0) of
           None \<Rightarrow> Inr st
         | Some subs \<Rightarrow>
             if columns ! 0 \<notin> set (references st) then Inr st
             else if length columns < 4 then Inl IndexError
             else if columns ! 3 \<noteq> tax_level then Inr st
             else if length columns < 5 then Inl IndexError
             else
               (let st = (if columns ! 4 \<notin> fst ` set (taxa st)
                          then st\<lparr>taxa := AList.update (columns ! 4) (taxa_number st) (taxa st),
                                  taxa_number := taxa_number st + 1\<rparr>
                          else st)
                in case map_of (taxa st) (columns ! 4) of
                     None \<Rightarrow> Inl KeyError
                   | Some v \<Rightarrow>
                       (case set_classes (classes st) subs v of
                          Inl e \<Rightarrow> Inl e
                        | Inr cls \<Rightarrow> Inr (st\<lparr>classes := cls\<rparr>))))"

fun tax_loop ::
  "bool \<Rightarrow> names \<Rightarrow> string \<Rightarrow> tax_state \<Rightarrow> string list \<Rightarrow> py_error + tax_state"
where
  "tax_loop has_bam nd tax_level st [] = Inr st"
| "tax_loop has_bam nd tax_level st (line # rest) =
     (case tax_row has_bam nd tax_level st line of
        Inl e \<Rightarrow> Inl e
      | Inr st' \<Rightarrow> tax_loop has_bam nd tax_level st' rest)"

text \<open>The second loop of \<^verbatim>\<open>color_taxa\<close>: points without a class get class 0.\<close>

fun default_subs :: "class_dict \<Rightarrow> sub_dict \<Rightarrow> py_error + class_dict" where
  "default_subs cls [] = Inr cls"
| "default_subs cls ((sub_name, point) # rest) =
     (case py_int point of
        None \<Rightarrow> Inl ValueError
      | Some key \<Rightarrow>
          default_subs (if key \<notin> fst ` set cls then AList.update key 0 cls else cls) rest)"

fun default_names :: "class_dict \<Rightarrow> names \<Rightarrow> py_error + class_dict" where
  "default_names cls [] = Inr cls"
| "default_names cls ((name, subs) # rest) =
     (case default_subs cls subs of
        Inl e \<Rightarrow> Inl e
      | Inr cls' \<Rightarrow> default_names cls' rest)"

text \<open>
  A palette line \<^verbatim>\<open>%index R<TAB>G<TAB>B\<close>, kept as the numbers it is formatted from.
\<close>

type_synonym color_line = "nat \<times> rat \<times> rat \<times> rat"

definition header_colors_of :: "(rat \<times> rat \<times> rat) list \<Rightarrow> color_line list" where
  "header_colors_of rgb_tuples = enumerate 0 rgb_tuples"

record color_result =
  r_classes :: class_dict
  r_header_colors :: "color_line list"
  r_taxa :: "(string \<times> nat) list"
  r_references :: "string list"

definition color_taxa ::
  "bool \<Rightarrow> names \<Rightarrow> string list \<Rightarrow> string list \<Rightarrow> string \<Rightarrow> py_error + color_result"
where
  "color_taxa has_bam nd refs tax_file tax_level =
     (let tax_level = lower tax_level in
      case tax_loop has_bam nd tax_level
             \<lparr>taxa = [], classes = [], taxa_number = 1, references = refs\<rparr> (drop 1 tax_file) of
        Inl e \<Rightarrow> Inl e
      | Inr st \<Rightarrow>
          (case default_names (classes st) nd of
             Inl e \<Rightarrow> Inl e
           | Inr cls \<Rightarrow>
               Inr \<lparr>r_classes = cls,
                    r_header_colors = header_colors_of (rainbow_picker (taxa_number st)),
                    r_taxa = taxa st,
                    r_references = references st\<rparr>))"

section \<open>esom\_tracer: the main program\<close>

record args =
  bam :: "bam_file option"
  fasta :: fasta_file
  names :: "string list"
  taxonomy :: "string list option"
  tax_level :: "string option"
  coverage :: "int option"

text \<open>The class file: the count of the first line, the palette lines, the point lines.\<close>

record cls_file =
  cls_count :: nat
  cls_colors :: "color_line list"
  cls_body :: "(int \<times> nat) list"

record outputs =
  out_cls :: cls_file
  out_taxa :: "(nat \<times> string) list option"

text \<open>The binary colouring of the main program.\<close>

fun binary_classes :: "string list \<Rightarrow> class_dict \<Rightarrow> names \<Rightarrow> py_error + class_dict" where
  "binary_classes refs cls [] = Inr cls"
| "binary_classes refs cls ((name, subs) # rest) =
     (let hit = (name \<in> set refs) in
      case set_classes cls subs (if hit then 1 else 0) of
        Inl e \<Rightarrow> Inl e
      | Inr cls' \<Rightarrow> binary_classes refs cls' rest)"

definition binary_colors :: "color_line list" where
  "binary_colors = [(0, 255, 255, 255), (1, 255, 0, 0)]"

definition write_cls :: "string list \<Rightarrow> color_line list \<Rightarrow> class_dict \<Rightarrow> cls_file" where
  "write_cls refs header_colors cls =
     \<lparr>cls_count = length refs,
      cls_colors = header_colors,
      cls_body = map (\<lambda>key. (key, the (map_of cls key))) (sort (map fst cls))\<rparr>"

definition write_taxa :: "(string \<times> nat) list \<Rightarrow> (nat \<times> string) list" where
  "write_taxa t = map (\<lambda>key. (snd key, fst key)) (sort_key snd t)"

definition tax_level_str :: "string option \<Rightarrow> string" where
  "tax_level_str t = (case t of None \<Rightarrow> [] | Some s \<Rightarrow> s)"

text \<open>
  \<^verbatim>\<open>references = {}\<close>, filled by the coverage filter when an alignment file is
  given.
\<close>

definition references_of :: "args \<Rightarrow> py_error + string list" where
  "references_of a =
     (case bam a of
        None \<Rightarrow> Inr []
      | Some b \<Rightarrow> coverage_filter b (fasta a) (coverage a))"

text \<open>
  The main program. \<^verbatim>\<open>args.tax_level\<close> counts as missing when it is
  \<^verbatim>\<open>None\<close> or the empty string; the program then leaves with
  \<^verbatim>\<open>sys.exit(1)\<close> before it reads any file.
\<close>

definition main :: "args \<Rightarrow> py_error + outputs" where
  "main a =
     (if taxonomy a \<noteq> None \<and> tax_level_str (tax_level a) = [] then Inl (SystemExit 1)
      else
        case references_of a of
          Inl e \<Rightarrow> Inl e
        | Inr refs \<Rightarrow>
            (case names_dict (names a) of
               Inl e \<Rightarrow> Inl e
             | Inr namesDict \<Rightarrow>
                 (case taxonomy a of
                    None \<Rightarrow>
                      (case binary_classes refs [] namesDict of
                         Inl e \<Rightarrow> Inl e
                       | Inr cls \<Rightarrow>
                           Inr \<lparr>out_cls = write_cls refs binary_colors cls, out_taxa = None\<rparr>)
                  | Some tax_file \<Rightarrow>
                      (case color_taxa (bam a \<noteq> None) namesDict refs tax_file
                              (tax_level_str (tax_level a)) of
                         Inl e \<Rightarrow> Inl e
                       | Inr r \<Rightarrow>
                           Inr \<lparr>out_cls = write_cls (r_references r) (r_header_colors r) (r_classes r),
                                out_taxa = Some (write_taxa (r_taxa r))\<rparr>))))"

text \<open>The text of the first line and of the point lines of the class file.\<close>

definition header_line :: "cls_file \<Rightarrow> string" where
  "header_line c = ''% '' @ str_nat (cls_count c)"

definition body_lines :: "cls_file \<Rightarrow> string list" where
  "body_lines c = map (\<lambda>(key, v). str_int key @ [TAB] @ str_nat v) (cls_body c)"

definition taxa_lines :: "(nat \<times> string) list \<Rightarrow> string list" where
  "taxa_lines rows = map (\<lambda>(c, name). str_nat c @ [TAB] @ name) rows"

section \<open>Predicates used in the statements\<close>

text \<open>
  A colour with saturation and value 1: every component lies between 0 and 1, the largest
  is 1 and the smallest is 0; and the same colour scaled to 255.
\<close>

definition unit_rgb :: "rat \<times> rat \<times> rat \<Rightarrow> bool" where
  "unit_rgb c = (case c of (r, g, b) \<Rightarrow>
     0 \<le> r \<and> r \<le> 1 \<and> 0 \<le> g \<and> g \<le> 1 \<and> 0 \<le> b \<and> b \<le> 1
     \<and> max r (max g b) = 1 \<and> min r (min g b) = 0)"

definition rgb_in_range :: "rat \<times> rat \<times> rat \<Rightarrow> bool" where
  "rgb_in_range c = (case c of (r, g, b) \<Rightarrow>
     0 \<le> r \<and> r \<le> 255 \<and> 0 \<le> g \<and> g \<le> 255 \<and> 0 \<le> b \<and> b \<le> 255
     \<and> max r (max g b) = 255 \<and> min r (min g b) = 0)"

text \<open>
  The test of the coverage filter on one reference, and the inputs on which the filter
  raises nothing: every reference with a mapped read has a positive length in the FASTA
  file.
\<close>

definition covered :: "bam_file \<Rightarrow> fasta_file \<Rightarrow> int \<Rightarrow> string \<Rightarrow> bool" where
  "covered b f cov r =
     (bam_count b r \<noteq> 0 \<and>
      (case f r of
         None \<Rightarrow> False
       | Some len \<Rightarrow> (of_nat (length (bam_pileup b r)) :: rat) / of_nat len \<ge> of_int cov / 100))"

definition lengths_known :: "bam_file \<Rightarrow> fasta_file \<Rightarrow> bool" where
  "lengths_known b f =
     list_all (\<lambda>r. bam_count b r = 0 \<or> (case f r of None \<Rightarrow> False | Some len \<Rightarrow> 0 < len))
       (bam_references b)"

text \<open>An alignment of three references: half of c1 is covered, a tenth of c2, c3 has no read.\<close>

definition bam1 :: bam_file where
  "bam1 = \<lparr>bam_references = [''c1'', ''c2'', ''c3''],
           bam_count = (\<lambda>r. if r = ''c1'' then 2 else if r = ''c2'' then 1 else 0),
           bam_pileup = (\<lambda>r. if r = ''c1'' then [0, 1] else if r = ''c2'' then [5] else [])\<rparr>"

definition fasta1 :: fasta_file where
  "fasta1 = [''c1'' \<mapsto> 4, ''c2'' \<mapsto> 10]"

section \<open>phylosift\_bins: the offset index of the taxonomy file\<close>

text \<open>
  The taxonomy file is a stream: its bytes and the current offset. \<^verbatim>\<open>readline\<close>
  returns the bytes up to and including the next newline (all the rest when there is none,
  the empty string at the end of the file) and moves the offset past them;
  \<^verbatim>\<open>tell\<close> reads the offset and \<^verbatim>\<open>seek\<close> sets it.
\<close>

record stream =
  content :: string
  pos :: nat

fun first_line :: "string \<Rightarrow> string" where
  "first_line [] = []"
| "first_line (c # cs) = (if c = NL then [c] else c # first_line cs)"

definition readline :: "stream \<Rightarrow> string \<times> stream" where
  "readline s =
     (let line = first_line (drop (pos s) (content s))
      in (line, s\<lparr>pos := pos s + length line\<rparr>))"

definition tell :: "stream \<Rightarrow> nat" where
  "tell s = pos s"

definition seek :: "stream \<Rightarrow> nat \<Rightarrow> stream" where
  "seek s location = s\<lparr>pos := location\<rparr>"

text \<open>
  \<^verbatim>\<open>line.strip().split('\t')[0].split(' ')[0]\<close>; \<^verbatim>\<open>split\<close> never returns the
  empty list, so neither index fails.
\<close>

definition read_name_of :: "string \<Rightarrow> string" where
  "read_name_of line = hd (split_on (CHR '' '') (hd (split_on TAB (strip line))))"

type_synonym file_index = "(string \<times> nat list) list"

text \<open>\<^verbatim>\<open>file_index[read_name].append(location)\<close> on a \<^verbatim>\<open>defaultdict(list)\<close>.\<close>

definition index_append :: "file_index \<Rightarrow> string \<Rightarrow> nat \<Rightarrow> file_index" where
  "index_append idx read_name location =
     AList.update read_name
       ((case map_of idx read_name of None \<Rightarrow> [] | Some locations \<Rightarrow> locations) @ [location])
       idx"

function index_loop :: "stream \<Rightarrow> nat \<Rightarrow> string \<Rightarrow> file_index \<Rightarrow> file_index" where
  "index_loop s location line idx =
     (if line = [] then idx
      else index_loop (snd (readline s)) (tell s) (fst (readline s))
             (index_append idx (read_name_of line) location))"
  by pat_completeness auto
termination
proof (relation "measure (\<lambda>(s, location, line, idx).
         2 * (length (content s) - pos s) + (if line = [] then 0 else 1))", goal_cases)
  case 1
  show ?case by simp
next
  case (2 s location line idx)
  have ne: "first_line xs \<noteq> [] \<Longrightarrow> xs \<noteq> []" for xs
    by (cases xs) auto
  show ?case
  proof (cases "first_line (drop (pos s) (content s)) = []")
    case True
    with 2 show ?thesis by (simp add: readline_def Let_def)
  next
    case False
    define n where "n = length (first_line (drop (pos s) (content s)))"
    from False have "0 < n" by (simp add: n_def)
    moreover from False have "pos s < length (content s)"
      using ne [of "drop (pos s) (content s)"] by simp
    ultimately have "length (content s) - (pos s + n) < length (content s) - pos s"
      by arith
    with 2 False show ?thesis by (simp add: readline_def Let_def n_def)
  qed
qed

declare index_loop.simps [simp del]

text \<open>
  The first lines of \<^verbatim>\<open>main\<close> in \<^verbatim>\<open>phylosift_bins.py\<close>: the header is read
  and dropped, then the loop runs from the first record.
\<close>

definition build_index :: "stream \<Rightarrow> file_index" where
  "build_index handle =
     (let handle = snd (readline handle);
          location = tell handle;
          line = fst (readline handle);
          handle = snd (readline handle)
      in index_loop handle location line [])"

text \<open>
  The inner loop of the extraction: for every recorded offset, seek to it and copy one
  line.
\<close>

fun copy_records :: "stream \<Rightarrow> nat list \<Rightarrow> string list \<times> stream" where
  "copy_records s [] = ([], s)"
| "copy_records s (location # rest) =
     (let r = readline (seek s location);
          out = copy_records (snd r) rest
      in (fst r # fst out, snd out))"

text \<open>
  What every entry of the offset index satisfies while the table is scanned up to the
  offset \<open>bound\<close>: its list is not empty and strictly increasing, and at each of its
  offsets a line of the file begins whose read name is the entry's key.
\<close>

definition index_ok :: "string \<Rightarrow> nat \<Rightarrow> file_index \<Rightarrow> bool" where
  "index_ok c bound idx =
     (\<forall>name offs. map_of idx name = Some offs \<longrightarrow>
        offs \<noteq> [] \<and> sorted_wrt (<) offs \<and>
        (\<forall>off \<in> set offs. off < bound \<and> first_line (drop off c) \<noteq> []
            \<and> read_name_of (first_line (drop off c)) = name))"

text \<open>A taxonomy file of a header and three records, two of them of the read r1.\<close>

definition tax_bytes :: string where
  "tax_bytes = ''#id'' @ [TAB] @ ''rank'' @ [NL]
     @ ''r1 x'' @ [TAB] @ ''genus'' @ [NL]
     @ ''r2'' @ [TAB] @ ''genus'' @ [NL]
     @ ''r1 y'' @ [TAB] @ ''family'' @ [NL]"

definition tax_stream :: stream where
  "tax_stream = \<lparr>content = tax_bytes, pos = 0\<rparr>"

text \<open>
  The identifier as the specification words it: the first whitespace-delimited token of the
  first tab-delimited column of the line as it is read. A column of whitespace only has no
  token.
\<close>

definition first_column :: "string \<Rightarrow> string" where
  "first_column line = hd (split_on TAB line)"

definition first_token :: "string \<Rightarrow> string option" where
  "first_token s =
     (case dropWhile is_space s of
        [] \<Rightarrow> None
      | c # cs \<Rightarrow> Some (takeWhile (\<lambda>c. \<not> is_space c) (c # cs)))"

definition spec_read_name :: "string \<Rightarrow> string option" where
  "spec_read_name line = first_token (first_column line)"

text \<open>
  Two taxonomy files of a header and one record: the record of the first begins with a tab,
  the first column of the record of the second holds a vertical tab.
\<close>

definition tax_leading_tab :: stream where
  "tax_leading_tab = \<lparr>content = ''h'' @ [NL] @ [TAB] @ ''r2'' @ [TAB] @ ''b'' @ [NL], pos = 0\<rparr>"

definition tax_vertical_tab :: stream where
  "tax_vertical_tab =
     \<lparr>content = ''h'' @ [NL] @ ''a'' @ [CHR 0x0B] @ ''b c'' @ [TAB] @ ''g'' @ [NL], pos = 0\<rparr>"

section \<open>Malformed rows of the names table\<close>

lemma names_loop_short_row:
  "\<exists>line \<in> set ls. length (columns_of line) < 3 \<Longrightarrow> names_loop d ls = Inl IndexError"
  by (induction ls arbitrary: d) (auto simp: Let_def)

text \<open>
  C9 (as the code has it). A names table with a data row of fewer than three tab-delimited
  columns (counted, as the code does, after stripping the line) makes \<^verbatim>\<open>names_dict\<close>
  end in the uncaught \<^verbatim>\<open>IndexError\<close> of the out-of-range access; no other error
  is reported for it.
\<close>

theorem names_dict_short_row_IndexError:
  assumes "line \<in> set (drop 1 names_file)" and "length (columns_of line) < 3"
  shows "names_dict names_file = Inl IndexError"
  unfolding names_dict_def using assms by (intro names_loop_short_row) blast

theorem names_dict_short_row_IndexError_witness:
  "''1'' @ [TAB] @ ''s1'' \<in> set (drop 1 [''id'', ''1'' @ [TAB] @ ''s1''])
   \<and> length (columns_of (''1'' @ [TAB] @ ''s1'')) < 3
   \<and> names_dict [''id'', ''1'' @ [TAB] @ ''s1''] = Inl IndexError"
proof -
  have a: "''1'' @ [TAB] @ ''s1'' \<in> set (drop 1 [''id'', ''1'' @ [TAB] @ ''s1''])"
    by simp
  have b: "length (columns_of (''1'' @ [TAB] @ ''s1'')) < 3"
    by (simp add: columns_of_def strip_def is_space_def)
  from names_dict_short_row_IndexError [OF a b] a b show ?thesis by simp
qed

text \<open>
  C9 (as the spec states it) fails: on the two-column row below the result is the
  \<^verbatim>\<open>IndexError\<close> of the list access itself, not a reported parse error.
\<close>

theorem names_dict_malformed_counterexample:
  "length (columns_of (''1'' @ [TAB] @ ''s1'')) < 3
   \<and> names_dict [''id'', ''1'' @ [TAB] @ ''s1''] = Inl IndexError"
  by (simp add: names_dict_def columns_of_def strip_def is_space_def)

section \<open>The palette\<close>

lemma hsv_to_rgb_unit:
  assumes "0 \<le> h"
  shows "unit_rgb (hsv_to_rgb h 1 1)"
proof -
  define f where "f = h * 6 - of_int \<lfloor>h * 6\<rfloor>"
  have f0: "0 \<le> f" and f1: "f < 1"
    unfolding f_def by linarith+
  have tr: "py_trunc (h * 6) = \<lfloor>h * 6\<rfloor>"
    using assms by (simp add: py_trunc_def)
  show ?thesis
    unfolding hsv_to_rgb_def tr Let_def f_def [symmetric] unit_rgb_def
    using f0 f1 by auto
qed

lemma unit_rgb_scaled:
  "unit_rgb (r, g, b) \<Longrightarrow> rgb_in_range (r * 255, g * 255, b * 255)"
  unfolding unit_rgb_def rgb_in_range_def
  by (auto simp: max_def min_def split: if_splits)

lemma rainbow_picker_nth:
  "i < n \<Longrightarrow> rainbow_picker n ! i =
     (case hsv_to_rgb (of_nat i / of_nat n) 1 1 of (r, g, b) \<Rightarrow> (r * 255, g * 255, b * 255))"
  by (simp add: rainbow_picker_def)

text \<open>
  What \<^verbatim>\<open>rainbow_picker\<close> computes. It returns one colour per class, in
  hue order: entry \<open>i\<close> is the colour of hue \<open>i / scale\<close> at saturation and value 1,
  scaled by 255, so the hue circle is cut into \<open>scale\<close> equal sectors from hue 0 (pure
  red). Every component is a number between 0 and 255, the largest is 255 and the
  smallest 0. The components are not rounded. The result is a function of \<open>scale\<close>
  alone.
\<close>

theorem rainbow_picker_palette:
  "length (rainbow_picker n) = n
   \<and> (\<forall>i < n. rainbow_picker n ! i =
         (case hsv_to_rgb (of_nat i / of_nat n) 1 1 of (r, g, b) \<Rightarrow> (r * 255, g * 255, b * 255))
       \<and> rgb_in_range (rainbow_picker n ! i))
   \<and> (0 < n \<longrightarrow> rainbow_picker n ! 0 = (255, 0, 0))"
proof (intro conjI allI impI)
  show "length (rainbow_picker n) = n" by (simp add: rainbow_picker_def)
next
  fix i assume "i < n"
  then show "rainbow_picker n ! i =
     (case hsv_to_rgb (of_nat i / of_nat n) 1 1 of (r, g, b) \<Rightarrow> (r * 255, g * 255, b * 255))"
    by (rule rainbow_picker_nth)
next
  fix i assume i: "i < n"
  have "unit_rgb (hsv_to_rgb (of_nat i / of_nat n) 1 1)"
    by (rule hsv_to_rgb_unit) simp
  then show "rgb_in_range (rainbow_picker n ! i)"
    by (cases "hsv_to_rgb (of_nat i / of_nat n) 1 1")
       (simp add: rainbow_picker_nth [OF i] unit_rgb_scaled)
next
  assume "0 < n"
  then show "rainbow_picker n ! 0 = (255, 0, 0)"
    by (simp add: rainbow_picker_nth hsv_to_rgb_def py_trunc_def)
qed

theorem rainbow_picker_palette_witness:
  "(1::nat) < 4 \<and> length (rainbow_picker 4) = 4
   \<and> rainbow_picker 4 ! 1 = (255 / 2, 255, 0) \<and> rgb_in_range (rainbow_picker 4 ! 1)
   \<and> rainbow_picker 4 ! 0 = (255, 0, 0)"
proof -
  have fl: "\<lfloor>3 / 2 :: rat\<rfloor> = 1" by linarith
  have h: "hsv_to_rgb (of_nat 1 / of_nat 4) 1 1 = (1 / 2, 1, 0)"
    by (simp add: hsv_to_rgb_def py_trunc_def Let_def fl)
  note t = rainbow_picker_palette [of 4]
  have len: "length (rainbow_picker 4) = 4"
    by (rule t [THEN conjunct1])
  note nth = t [THEN conjunct2, THEN conjunct1]
  have first: "rainbow_picker 4 ! 0 = (255, 0, 0)"
    using t [THEN conjunct2, THEN conjunct2] by simp
  have lt: "(1::nat) < 4" by simp
  note one = nth [rule_format, OF lt]
  have e: "rainbow_picker 4 ! 1 = (255 / 2, 255, 0)"
    using one [THEN conjunct1] h by simp
  note r = one [THEN conjunct2]
  from lt len e r first show ?thesis by (intro conjI)
qed

text \<open>
  C8. The palette is to hold integer components, as the two palette lines of the binary
  colouring do (\<^verbatim>\<open>%0 255<TAB>255<TAB>255\<close> and \<^verbatim>\<open>%1 255<TAB>0<TAB>0\<close>), but
  \<^verbatim>\<open>rainbow_picker\<close> multiplies the float components by 255 and converts nothing
  to \<^verbatim>\<open>int\<close>: with four classes the palette is the one below, and the red component
  of its second and fourth colour is 127.5, which is no integer. All numbers of this run are
  exact as binary floats.
\<close>

theorem rainbow_picker_not_integer:
  "rainbow_picker 4 = [(255, 0, 0), (255 / 2, 255, 0), (0, 255, 255), (255 / 2, 0, 255)]
   \<and> fst (rainbow_picker 4 ! 1) = 255 / 2 \<and> fst (rainbow_picker 4 ! 1) \<notin> \<int>"
proof -
  have fl: "\<lfloor>3 / 2 :: rat\<rfloor> = 1" by linarith
  have fl2: "\<lfloor>9 / 2 :: rat\<rfloor> = 4" by linarith
  have u: "[0..<4] = [0, 1, 2, 3]" by (simp add: upt_rec)
  have p: "rainbow_picker 4 = [(255, 0, 0), (255 / 2, 255, 0), (0, 255, 255), (255 / 2, 0, 255)]"
    unfolding rainbow_picker_def u
    by (simp add: hsv_to_rgb_def py_trunc_def Let_def fl fl2)
  have v: "fst (rainbow_picker 4 ! 1) = 255 / 2"
    unfolding p by simp
  have ni: "(255 / 2 :: rat) \<notin> \<int>"
  proof
    assume "(255 / 2 :: rat) \<in> \<int>"
    then obtain k :: int where "(255 / 2 :: rat) = of_int k" by (auto elim: Ints_cases)
    then have "(of_int (2 * k) :: rat) = of_int 255" by simp
    then have "2 * k = 255" by (simp only: of_int_eq_iff)
    then show False by presburger
  qed
  have ni': "fst (rainbow_picker 4 ! 1) \<notin> \<int>"
    unfolding v by (rule ni)
  from p v ni' show ?thesis by (intro conjI)
qed

section \<open>The coverage filter\<close>

lemma set_dict_add: "set (dict_add refs k) = insert k (set refs)"
  by (auto simp: dict_add_def)

lemma distinct_dict_add: "distinct refs \<Longrightarrow> distinct (dict_add refs k)"
  by (simp add: dict_add_def)

lemma reference_loop_hits:
  "reference_loop b f cov acc rs = Inr hits \<Longrightarrow>
   set hits = set acc \<union> {r \<in> set rs. covered b f cov r}"
proof (induction rs arbitrary: acc)
  case Nil
  then show ?case by simp
next
  case (Cons r rs)
  show ?case
  proof (cases "bam_count b r = 0")
    case True
    with Cons.prems have "reference_loop b f cov acc rs = Inr hits" by simp
    from Cons.IH [OF this] True show ?thesis by (auto simp: covered_def)
  next
    case False
    with Cons.prems obtain len where len: "f r = Some len" "len \<noteq> 0"
      by (auto simp: Let_def split: option.splits if_splits)
    let ?acc = "if (of_nat (length (bam_pileup b r)) :: rat) / of_nat len \<ge> of_int cov / 100
                then dict_add acc r else acc"
    from Cons.prems False len have "reference_loop b f cov ?acc rs = Inr hits"
      by (simp add: Let_def)
    from Cons.IH [OF this] False len show ?thesis
      by (auto simp: covered_def set_dict_add split: if_splits)
  qed
qed

lemma reference_loop_total:
  "list_all (\<lambda>r. bam_count b r = 0 \<or> (case f r of None \<Rightarrow> False | Some len \<Rightarrow> 0 < len)) rs
   \<Longrightarrow> \<exists>hits. reference_loop b f cov acc rs = Inr hits"
  by (induction rs arbitrary: acc) (auto simp: Let_def split: option.splits)

lemma reference_loop_distinct:
  "reference_loop b f cov acc rs = Inr hits \<Longrightarrow> distinct acc \<Longrightarrow> distinct hits"
  by (induction rs arbitrary: acc)
     (auto simp: Let_def distinct_dict_add split: option.splits if_splits)

text \<open>
  C3. Where every reference with a mapped read has a positive length, the filter returns a
  hit set, and a reference of the alignment is in it exactly if its read count is not zero
  and the number of its pileup columns divided by its length is at least the threshold
  percentage divided by 100. The threshold is 50 when the option is not given, and the
  given number otherwise.
\<close>

theorem coverage_filter_hit_set:
  assumes "lengths_known b f"
  shows "\<exists>hits. coverage_filter b f c = Inr hits
     \<and> (\<forall>r \<in> set (bam_references b).
           r \<in> set hits \<longleftrightarrow>
             bam_count b r \<noteq> 0
             \<and> (\<exists>len. f r = Some len
                  \<and> (of_nat (length (bam_pileup b r)) :: rat) / of_nat len
                      \<ge> of_int (coverage_arg c) / 100))
     \<and> set hits \<subseteq> set (bam_references b)
     \<and> coverage_arg None = 50 \<and> coverage_arg (Some v) = v"
proof -
  from assms obtain hits where h: "coverage_filter b f c = Inr hits"
    unfolding coverage_filter_def lengths_known_def
    using reference_loop_total by blast
  then have "set hits = {r \<in> set (bam_references b). covered b f (coverage_arg c) r}"
    unfolding coverage_filter_def using reference_loop_hits [of b f "coverage_arg c" "[]"] by simp
  then have "(\<forall>r \<in> set (bam_references b).
           r \<in> set hits \<longleftrightarrow>
             bam_count b r \<noteq> 0
             \<and> (\<exists>len. f r = Some len
                  \<and> (of_nat (length (bam_pileup b r)) :: rat) / of_nat len
                      \<ge> of_int (coverage_arg c) / 100))
     \<and> set hits \<subseteq> set (bam_references b)"
    by (auto simp: covered_def split: option.splits)
  with h show ?thesis by (simp add: coverage_arg_def)
qed

theorem coverage_filter_hit_set_witness:
  "lengths_known bam1 fasta1 \<and> coverage_filter bam1 fasta1 None = Inr [''c1'']"
proof -
  have k: "lengths_known bam1 fasta1"
    by (simp add: lengths_known_def bam1_def fasta1_def)
  from coverage_filter_hit_set [OF k, of None]
  obtain hits where "coverage_filter bam1 fasta1 None = Inr hits" by blast
  moreover have "coverage_filter bam1 fasta1 None = Inr [''c1'']"
    by (simp add: coverage_filter_def coverage_arg_def bam1_def fasta1_def dict_add_def)
  ultimately show ?thesis using k by simp
qed

section \<open>The offset index\<close>

lemma index_ok_mono: "index_ok c bound idx \<Longrightarrow> bound \<le> bound' \<Longrightarrow> index_ok c bound' idx"
  unfolding index_ok_def by fastforce

lemma index_ok_append:
  assumes ok: "index_ok c location idx"
    and line: "first_line (drop location c) \<noteq> []"
  shows "index_ok c (Suc location)
           (index_append idx (read_name_of (first_line (drop location c))) location)"
  unfolding index_ok_def
proof (intro allI impI)
  fix name offs
  let ?rn = "read_name_of (first_line (drop location c))"
  assume m: "map_of (index_append idx ?rn location) name = Some offs"
  show "offs \<noteq> [] \<and> sorted_wrt (<) offs \<and>
        (\<forall>off \<in> set offs. off < Suc location \<and> first_line (drop off c) \<noteq> []
            \<and> read_name_of (first_line (drop off c)) = name)"
  proof (cases "name = ?rn")
    case False
    with m have "map_of idx name = Some offs"
      by (simp add: index_append_def update_conv')
    with ok show ?thesis unfolding index_ok_def by fastforce
  next
    case True
    let ?old = "case map_of idx ?rn of None \<Rightarrow> [] | Some locations \<Rightarrow> locations"
    from m True have offs: "offs = ?old @ [location]"
      by (simp add: index_append_def update_conv')
    have old: "sorted_wrt (<) ?old \<and>
        (\<forall>off \<in> set ?old. off < location \<and> first_line (drop off c) \<noteq> []
            \<and> read_name_of (first_line (drop off c)) = ?rn)"
      using ok unfolding index_ok_def by (auto split: option.splits)
    show ?thesis unfolding offs using old line True
      by (auto simp: sorted_wrt_append less_Suc_eq)
  qed
qed

lemma index_loop_ok:
  "index_ok (content s) location idx \<Longrightarrow>
   line = first_line (drop location (content s)) \<Longrightarrow>
   pos s = location + length line \<Longrightarrow>
   \<exists>bound. index_ok (content s) bound (index_loop s location line idx)"
proof (induction s location line idx rule: index_loop.induct)
  case (1 s location line idx)
  show ?case
  proof (cases "line = []")
    case True
    then have "index_loop s location line idx = idx"
      by (subst index_loop.simps) simp
    with "1.prems"(1) show ?thesis by auto
  next
    case False
    let ?idx = "index_append idx (read_name_of line) location"
    have a: "index_ok (content (snd (readline s))) (tell s) ?idx"
    proof -
      from "1.prems" False have "index_ok (content s) (Suc location) ?idx"
        using index_ok_append [of "content s" location idx] by simp
      moreover from "1.prems" False have "Suc location \<le> tell s"
        by (simp add: tell_def Suc_le_eq)
      ultimately show ?thesis
        by (auto simp: readline_def Let_def intro: index_ok_mono)
    qed
    have b: "fst (readline s) = first_line (drop (tell s) (content (snd (readline s))))"
      by (simp add: readline_def Let_def tell_def)
    have c: "pos (snd (readline s)) = tell s + length (fst (readline s))"
      by (simp add: readline_def Let_def tell_def)
    have "index_loop s location line idx =
            index_loop (snd (readline s)) (tell s) (fst (readline s)) ?idx"
      using False by (subst index_loop.simps) simp
    with "1.IH" [OF False a b c] show ?thesis
      by (simp add: readline_def Let_def)
  qed
qed

lemma build_index_ok: "\<exists>bound. index_ok (content s) bound (build_index s)"
proof -
  let ?s1 = "snd (readline s)"
  let ?s2 = "snd (readline ?s1)"
  have "\<exists>bound. index_ok (content ?s2) bound
          (index_loop ?s2 (tell ?s1) (fst (readline ?s1)) [])"
    by (rule index_loop_ok) (simp_all add: index_ok_def readline_def Let_def tell_def)
  then show ?thesis
    by (simp add: build_index_def Let_def readline_def)
qed

lemma copy_records_lines:
  "fst (copy_records s offs) = map (\<lambda>off. first_line (drop off (content s))) offs"
  by (induction offs arbitrary: s) (simp_all add: Let_def readline_def seek_def)

lemma split_on_not_Nil: "split_on sep s \<noteq> []"
  by (induction s) (auto split: list.splits)

lemma hd_split_on: "hd (split_on sep s) = takeWhile (\<lambda>c. c \<noteq> sep) s"
  using split_on_not_Nil [of sep]
  by (induction s) (auto split: list.splits)

lemma takeWhile_twice:
  "(\<And>x. P x \<Longrightarrow> Q x) \<Longrightarrow> takeWhile P (takeWhile Q xs) = takeWhile P xs"
  by (induction xs) auto

lemma takeWhile_append_fail:
  "\<forall>y \<in> set ys. \<not> P y \<Longrightarrow> takeWhile P (xs @ ys) = takeWhile P xs"
  by (induction xs) (auto simp: takeWhile_eq_Nil_iff)

lemma takeWhile_weaker:
  assumes pq: "\<And>x. P x \<Longrightarrow> Q x"
  shows "\<forall>x \<in> set (takeWhile Q xs). P x \<Longrightarrow> takeWhile P xs = takeWhile Q xs"
proof (induction xs)
  case Nil
  show ?case by simp
next
  case (Cons a xs)
  show ?case
  proof (cases "Q a")
    case True
    with Cons.prems have "P a" and "\<forall>x \<in> set (takeWhile Q xs). P x" by simp_all
    with Cons.IH True show ?thesis by simp
  next
    case False
    with pq have "\<not> P a" by blast
    with False show ?thesis by simp
  qed
qed

lemma strip_no_leading:
  "line \<noteq> [] \<Longrightarrow> \<not> is_space (hd line) \<Longrightarrow>
   \<exists>ws. line = strip line @ ws \<and> (\<forall>c \<in> set ws. is_space c)"
proof -
  assume a: "line \<noteq> []" "\<not> is_space (hd line)"
  then have d: "dropWhile is_space line = line" by (cases line) auto
  have "line = rev (dropWhile is_space (rev line)) @ rev (takeWhile is_space (rev line))"
    by (metis rev_append rev_rev_ident takeWhile_dropWhile_id)
  moreover have "\<forall>c \<in> set (rev (takeWhile is_space (rev line))). is_space c"
    by (auto dest: set_takeWhileD)
  ultimately show ?thesis unfolding strip_def d by blast
qed

lemma read_name_of_takeWhile:
  "read_name_of line = takeWhile (\<lambda>c. c \<noteq> CHR '' '') (takeWhile (\<lambda>c. c \<noteq> TAB) (strip line))"
  by (simp add: read_name_of_def hd_split_on)

lemma spec_read_name_agrees:
  assumes ne: "line \<noteq> []" and hd: "\<not> is_space (hd line)"
    and nm: "\<forall>c \<in> set (read_name_of line). \<not> is_space c"
  shows "spec_read_name line = Some (read_name_of line)"
proof -
  from strip_no_leading [OF ne hd] obtain ws
    where ws: "line = strip line @ ws" "\<forall>c \<in> set ws. is_space c" by blast
  have sp: "\<not> is_space c \<Longrightarrow> c \<noteq> TAB" for c by (auto simp: is_space_def)
  have sp2: "\<not> is_space c \<Longrightarrow> c \<noteq> CHR '' ''" for c by (auto simp: is_space_def)
  from ne hd have col: "takeWhile (\<lambda>c. c \<noteq> TAB) line \<noteq> []"
    "\<not> is_space (hd (takeWhile (\<lambda>c. c \<noteq> TAB) line))"
    by (cases line; auto simp: is_space_def)+
  then have dw: "dropWhile is_space (takeWhile (\<lambda>c. c \<noteq> TAB) line) = takeWhile (\<lambda>c. c \<noteq> TAB) line"
    by (cases "takeWhile (\<lambda>c. c \<noteq> TAB) line") auto
  have "spec_read_name line = Some (takeWhile (\<lambda>c. \<not> is_space c) (takeWhile (\<lambda>c. c \<noteq> TAB) line))"
    using col unfolding spec_read_name_def first_token_def first_column_def hd_split_on dw
    by (cases "takeWhile (\<lambda>c. c \<noteq> TAB) line") auto
  also have "takeWhile (\<lambda>c. \<not> is_space c) (takeWhile (\<lambda>c. c \<noteq> TAB) line)
        = takeWhile (\<lambda>c. \<not> is_space c) line"
    by (rule takeWhile_twice) (rule sp)
  also have "\<dots> = takeWhile (\<lambda>c. \<not> is_space c) (strip line @ ws)"
    using ws(1) by simp
  also have "\<dots> = takeWhile (\<lambda>c. \<not> is_space c) (strip line)"
    using ws(2) by (intro takeWhile_append_fail) simp
  also have "\<dots> = takeWhile (\<lambda>c. \<not> is_space c) (takeWhile (\<lambda>c. c \<noteq> TAB) (strip line))"
    by (rule takeWhile_twice [symmetric]) (rule sp)
  also have "\<dots> = takeWhile (\<lambda>c. c \<noteq> CHR '' '') (takeWhile (\<lambda>c. c \<noteq> TAB) (strip line))"
    using nm unfolding read_name_of_takeWhile by (intro takeWhile_weaker sp2) 
  finally show ?thesis by (simp add: read_name_of_takeWhile)
qed

text \<open>
  C7 (as the code has it). For every read identifier in the index built from the taxonomy
  stream, the list of its offsets is not empty and strictly increasing (file order), and
  seeking any stream over the same bytes to one of the offsets and reading a line yields a
  line, not the end of the file, from which the extraction of the code (the line stripped of
  surrounding whitespace, its first tab-delimited column, the text before the first space
  character) gives exactly that identifier. Where the line does not begin with whitespace
  and the identifier holds no whitespace character, the identifier is also the first
  whitespace-delimited token of the first tab-delimited column of the line. The lines the
  extraction copies for the read are these, one per offset.
\<close>

theorem offset_index_round_trip:
  assumes "map_of (build_index taxonomy_stream) read_name = Some locations"
    and "content s = content taxonomy_stream"
  shows "locations \<noteq> [] \<and> sorted_wrt (<) locations
     \<and> (\<forall>location \<in> set locations.
           fst (readline (seek s location)) \<noteq> []
           \<and> read_name_of (fst (readline (seek s location))) = read_name
           \<and> (\<not> is_space (hd (fst (readline (seek s location))))
                \<and> (\<forall>c \<in> set read_name. \<not> is_space c)
              \<longrightarrow> spec_read_name (fst (readline (seek s location))) = Some read_name))
     \<and> length (fst (copy_records s locations)) = length locations
     \<and> (\<forall>line \<in> set (fst (copy_records s locations)). read_name_of line = read_name)"
proof -
  from build_index_ok [of taxonomy_stream] obtain bound
    where "index_ok (content taxonomy_stream) bound (build_index taxonomy_stream)" ..
  with assms(1) have *: "locations \<noteq> []" "sorted_wrt (<) locations"
    "\<forall>off \<in> set locations. first_line (drop off (content taxonomy_stream)) \<noteq> []
            \<and> read_name_of (first_line (drop off (content taxonomy_stream))) = read_name"
    unfolding index_ok_def by blast+
  have rl: "fst (readline (seek s location)) = first_line (drop location (content taxonomy_stream))"
    for location using assms(2) by (simp add: readline_def seek_def Let_def)
  have agree: "spec_read_name (fst (readline (seek s location))) = Some read_name"
    if "location \<in> set locations" "\<not> is_space (hd (fst (readline (seek s location))))"
       "\<forall>c \<in> set read_name. \<not> is_space c" for location
  proof -
    from *(3) that(1) have l: "fst (readline (seek s location)) \<noteq> []"
      "read_name_of (fst (readline (seek s location))) = read_name"
      unfolding rl by blast+
    from spec_read_name_agrees [OF l(1) that(2)] that(3) l(2) show ?thesis by simp
  qed
  have a: "\<forall>location \<in> set locations.
           fst (readline (seek s location)) \<noteq> []
           \<and> read_name_of (fst (readline (seek s location))) = read_name
           \<and> (\<not> is_space (hd (fst (readline (seek s location))))
                \<and> (\<forall>c \<in> set read_name. \<not> is_space c)
              \<longrightarrow> spec_read_name (fst (readline (seek s location))) = Some read_name)"
    using *(3) agree unfolding rl by blast
  have b: "length (fst (copy_records s locations)) = length locations
     \<and> (\<forall>line \<in> set (fst (copy_records s locations)). read_name_of line = read_name)"
    using *(3) assms(2) by (auto simp: copy_records_lines)
  from *(1,2) a b show ?thesis by blast
qed

theorem offset_index_round_trip_witness:
  "map_of (build_index tax_stream) ''r1'' = Some [9, 29]
   \<and> content (seek tax_stream 40) = content tax_stream
   \<and> fst (copy_records (seek tax_stream 40) [9, 29]) =
       [''r1 x'' @ [TAB] @ ''genus'' @ [NL], ''r1 y'' @ [TAB] @ ''family'' @ [NL]]
   \<and> read_name_of (''r1 x'' @ [TAB] @ ''genus'' @ [NL]) = ''r1''
   \<and> read_name_of (''r1 y'' @ [TAB] @ ''family'' @ [NL]) = ''r1''
   \<and> fst (readline (seek (seek tax_stream 40) 29)) = ''r1 y'' @ [TAB] @ ''family'' @ [NL]
   \<and> read_name_of (fst (readline (seek (seek tax_stream 40) 29))) = ''r1''
   \<and> spec_read_name (fst (readline (seek (seek tax_stream 40) 29))) = Some ''r1''"
proof -
  have idx: "build_index tax_stream = [(''r1'', [9, 29]), (''r2'', [20])]"
    by code_simp
  then have a: "map_of (build_index tax_stream) ''r1'' = Some [9, 29]"
    by simp
  have b: "content (seek tax_stream 40) = content tax_stream"
    by (simp add: seek_def)
  have c: "fst (copy_records (seek tax_stream 40) [9, 29]) =
       [''r1 x'' @ [TAB] @ ''genus'' @ [NL], ''r1 y'' @ [TAB] @ ''family'' @ [NL]]"
    by code_simp
  have d: "fst (readline (seek (seek tax_stream 40) 29)) = ''r1 y'' @ [TAB] @ ''family'' @ [NL]"
    by code_simp
  note t = offset_index_round_trip [OF a b]
  from t have lines: "\<forall>line \<in> set (fst (copy_records (seek tax_stream 40) [9, 29])).
         read_name_of line = ''r1''"
    by blast
  have m: "(29::nat) \<in> set [9, 29]" by simp
  note at = t [THEN conjunct2, THEN conjunct2, THEN conjunct1, rule_format, OF m]
  from lines have l1: "read_name_of (''r1 x'' @ [TAB] @ ''genus'' @ [NL]) = ''r1''"
    and l2: "read_name_of (''r1 y'' @ [TAB] @ ''family'' @ [NL]) = ''r1''"
    unfolding c by simp_all
  from at have l3: "read_name_of (fst (readline (seek (seek tax_stream 40) 29))) = ''r1''"
    by blast
  have h1: "\<not> is_space (hd (fst (readline (seek (seek tax_stream 40) 29))))"
    unfolding d by (simp add: is_space_def)
  have h2: "\<forall>c \<in> set ''r1''. \<not> is_space c"
    by (simp add: is_space_def)
  from at h1 h2 have l4: "spec_read_name (fst (readline (seek (seek tax_stream 40) 29))) = Some ''r1''"
    by blast
  from a b c l1 l2 d l3 l4 show ?thesis by (intro conjI)
qed

text \<open>
  C7 (as the spec states it) fails. The record of the first file begins with a tab: the code
  strips the line and stores the offset under \<^verbatim>\<open>r2\<close>, but the first tab-delimited
  column of the line read back at that offset is empty and has no token. The first column of
  the record of the second file holds a vertical tab: the code cuts at the first space and
  stores the offset under the identifier with the vertical tab in it, while the first
  whitespace-delimited token of the column is \<^verbatim>\<open>a\<close>.
\<close>

theorem offset_index_first_token_counterexample:
  "map_of (build_index tax_leading_tab) ''r2'' = Some [2]
   \<and> fst (readline (seek tax_leading_tab 2)) = [TAB] @ ''r2'' @ [TAB] @ ''b'' @ [NL]
   \<and> first_column (fst (readline (seek tax_leading_tab 2))) = []
   \<and> spec_read_name (fst (readline (seek tax_leading_tab 2))) = None
   \<and> map_of (build_index tax_vertical_tab) (''a'' @ [CHR 0x0B] @ ''b'') = Some [2]
   \<and> fst (readline (seek tax_vertical_tab 2)) = ''a'' @ [CHR 0x0B] @ ''b c'' @ [TAB] @ ''g'' @ [NL]
   \<and> first_column (fst (readline (seek tax_vertical_tab 2))) = ''a'' @ [CHR 0x0B] @ ''b c''
   \<and> spec_read_name (fst (readline (seek tax_vertical_tab 2))) = Some ''a''"
proof -
  have a: "map_of (build_index tax_leading_tab) ''r2'' = Some [2]" by code_simp
  have b: "fst (readline (seek tax_leading_tab 2)) = [TAB] @ ''r2'' @ [TAB] @ ''b'' @ [NL]"
    by code_simp
  have c: "first_column (fst (readline (seek tax_leading_tab 2))) = []" by code_simp
  have d: "spec_read_name (fst (readline (seek tax_leading_tab 2))) = None" by code_simp
  have e: "map_of (build_index tax_vertical_tab) (''a'' @ [CHR 0x0B] @ ''b'') = Some [2]"
    by code_simp
  have f: "fst (readline (seek tax_vertical_tab 2)) = ''a'' @ [CHR 0x0B] @ ''b c'' @ [TAB] @ ''g'' @ [NL]"
    by code_simp
  have g: "first_column (fst (readline (seek tax_vertical_tab 2))) = ''a'' @ [CHR 0x0B] @ ''b c''"
    by code_simp
  have h: "spec_read_name (fst (readline (seek tax_vertical_tab 2))) = Some ''a''" by code_simp
  from a b c d e f g h show ?thesis by (intro conjI)
qed

end
